theory Spec2Isabelle
  imports Main
begin

section \<open>Call stacks and the origin locator\<close>

text \<open>
  One entry of the goroutine's call stack, as \<open>runtime.Caller\<close> and
  \<open>runtime.FuncForPC\<close> report it: the file, the function name (\<open>None\<close> when
  \<open>FuncForPC\<close> returns nil) and the line.
\<close>

record frame =
  fileName :: string
  funcName :: "string option"
  lineNo :: nat

text \<open>The type behind \<open>*stack\<close>: the captured frames, innermost first.\<close>

type_synonym stack = "frame list"

text \<open>
  \<open>filepath.Base\<close> with the separator \<open>/\<close>: the empty path is \<open>.\<close>, trailing
  separators are stripped, the last element is kept, and a path of separators
  only is \<open>/\<close>.
\<close>

definition Base :: "string \<Rightarrow> string" where
  "Base path =
     (if path = [] then ''.''
      else
        let stripped = rev (dropWhile (\<lambda>c. c = CHR ''/'') (rev path));
            lastElem = rev (takeWhile (\<lambda>c. c \<noteq> CHR ''/'') (rev stripped))
        in if lastElem = [] then ''/'' else lastElem)"

text \<open>The verb \<open>%d\<close> of \<open>fmt.Sprintf\<close> on a non-negative number.\<close>

definition digit :: "nat \<Rightarrow> char" where
  "digit d = ''0123456789'' ! d"

fun decimal :: "nat \<Rightarrow> string" where
  "decimal n = (if n < 10 then [digit n] else decimal (n div 10) @ [digit (n mod 10)])"

declare decimal.simps [simp del]

text \<open>
  \<open>captureLocation(skip)\<close>. The argument \<open>cs\<close> is the call stack of the function
  that calls \<open>captureLocation\<close>, innermost first, so that \<open>cs ! 0\<close> is that
  function's own frame: \<open>runtime.Caller(skip + 1)\<close>, asked from inside
  \<open>captureLocation\<close>, answers with \<open>cs ! skip\<close>, and with \<open>ok = false\<close> beyond
  the end of the stack.
\<close>

definition captureLocation :: "nat \<Rightarrow> frame list \<Rightarrow> string" where
  "captureLocation skip cs =
     (if \<not> skip < length cs then ''''
      else
        let fr = cs ! skip;
            fnName = (case funcName fr of None \<Rightarrow> ''unknown'' | Some nm \<Rightarrow> Base nm)
        in Base (fileName fr) @ ''/'' @ fnName @ '':'' @ decimal (lineNo fr))"

text \<open>
  Modelled from the spec: \<open>callers\<close> is called by \<open>Wrap\<close> and its definition is not
  among the sources. The spec says that the first wrap captures the current
  call-site origin, skipping the wrapping function's own frame: the stack of
  \<open>Wrap\<close> without its innermost frame.
\<close>

definition callers :: "frame list \<Rightarrow> stack option" where
  "callers cs = Some (drop 1 cs)"

section \<open>Errors\<close>

text \<open>A panic, with its message.\<close>

datatype panic = Panic string

definition nilDereference :: panic where
  "nilDereference = Panic ''runtime error: invalid memory address or nil pointer dereference''"

text \<open>
  The errors of a chain, linked one to the next by \<open>Unwrap\<close>. \<open>ErrorString\<close> is
  an error without \<open>Unwrap\<close> (\<open>errors.New\<close>), \<open>WrapError\<close> an unclassified error
  whose \<open>Unwrap\<close> returns the error it holds (\<open>fmt.Errorf\<close> with \<open>%w\<close>), \<open>Biz\<close>
  a \<open>*BizError\<close> that is not nil. The cause of a \<open>*BizError\<close> is nil (\<open>None\<close>) or
  such an error.
\<close>

datatype BizError = BizError (key: string) (err: "error option") (uuid: string)
    (stack: "stack option")
  and error = ErrorString string | WrapError string error | Biz BizError

text \<open>
  The values of Go's \<open>error\<close> interface that the functions of the package may be
  handed; the nil interface is \<open>None\<close> of \<open>errorValue option\<close>. \<open>Chain e\<close> is
  an error of the type above. \<open>NilBizError ws\<close> is a nil \<open>*BizError\<close> held in the
  interface, which is not the nil interface, behind the unclassified wrappers
  with the messages \<open>ws\<close>, outermost first; with \<open>ws = []\<close> it is the nil pointer
  itself. No \<open>*BizError\<close> has such a value as its cause: \<open>Wrap\<close>, which makes the
  nodes, panics on it, as its definition below says. Errors that unwrap to
  several errors and errors with an \<open>As\<close> method of their own are not modelled.
\<close>

datatype errorValue = Chain error | NilBizError "string list"


definition Unwrap :: "BizError \<Rightarrow> error option" where
  "Unwrap r = err r"

text \<open>
  \<open>errors.As(err, &bizErr)\<close> with a target of type \<open>*BizError\<close>. It unwraps from
  \<open>err\<close> until it meets a value of type \<open>*BizError\<close>, nil pointer or not. \<open>None\<close>
  is the answer \<open>false\<close>; \<open>Some p\<close> is the answer \<open>true\<close> with the pointer \<open>p\<close>
  stored in \<open>bizErr\<close>, \<open>Some None\<close> when that pointer is nil.
\<close>

fun As_from :: "error \<Rightarrow> BizError option" where
  "As_from (Biz b) = Some b"
| "As_from (WrapError msg e) = As_from e"
| "As_from (ErrorString msg) = None"

fun As :: "errorValue option \<Rightarrow> BizError option option" where
  "As None = None"
| "As (Some (Chain x)) = map_option Some (As_from x)"
| "As (Some (NilBizError ws)) = Some None"


section \<open>Codes\<close>

record 'c BizCode =
  ctx :: 'c
  Key :: string

text \<open>
  The record handed to the logger, and the state of the logger: every
  \<open>ErrorInfo\<close> that \<open>PrintBizError\<close> received, in order, and the lines it gave to
  \<open>log.Println\<close> (the uuid, the values and the error).
\<close>

record ('c, 'v) ErrorInfo =
  Ctx :: 'c
  Err :: error
  Location :: string
  Value :: "'v list"
  Uuid :: string

record ('c, 'v) logger =
  received :: "('c, 'v) ErrorInfo list"
  printed :: "(string \<times> 'v list \<times> error) list"

definition PrintBizError :: "('c, 'v) ErrorInfo \<Rightarrow> ('c, 'v) logger \<Rightarrow> ('c, 'v) logger" where
  "PrintBizError obj lg =
     lg\<lparr>received := received lg @ [obj],
        printed := printed lg @ [(Uuid obj, Value obj, Err obj)]\<rparr>"

text \<open>
  \<open>BizCode.Wrap\<close>. \<open>cs\<close> is the call stack while \<open>Wrap\<close> runs, innermost first
  (\<open>cs ! 0\<close> is the frame of \<open>Wrap\<close>, \<open>cs ! 1\<close> its caller); the logger is passed
  in and returned. The result is the error returned with the logger after the
  call, or the panic that ends the call.

  On \<open>Chain cause\<close>, \<open>errors.As\<close> answers as \<open>As_from cause\<close> says, with a
  pointer that is not nil when it answers \<open>true\<close>. On a \<open>NilBizError\<close> it answers
  \<open>true\<close> with the nil pointer, and \<open>Wrap\<close> reads \<open>bizErr.stack\<close> through it:
  the call panics before the logger is called.
\<close>

definition Wrap ::
  "'c BizCode \<Rightarrow> frame list \<Rightarrow> errorValue option \<Rightarrow> 'v list \<Rightarrow> ('c, 'v) logger
     \<Rightarrow> panic + (errorValue option \<times> ('c, 'v) logger)" where
  "Wrap r cs e obj lg =
     (case e of
        None \<Rightarrow> Inr (None, lg)
      | Some (NilBizError ws) \<Rightarrow> Inl nilDereference
      | Some (Chain cause) \<Rightarrow>
          let newBizErr =
                (case As_from cause of
                   Some bizErr \<Rightarrow> BizError (Key r) (Some cause) (uuid bizErr) (stack bizErr)
                 | None \<Rightarrow> BizError (Key r) (Some cause) ''123'' (callers cs))
          in Inr (Some (Chain (Biz newBizErr)),
                  PrintBizError
                    \<lparr>Ctx = ctx r, Err = cause, Location = captureLocation 1 cs,
                     Value = obj, Uuid = uuid newBizErr\<rparr> lg))"

text \<open>
  \<open>BizCode.Equal\<close>. Reading \<open>bizErr.key\<close> through the nil pointer that
  \<open>errors.As\<close> may have stored panics.
\<close>

function Equal :: "'c BizCode \<Rightarrow> errorValue option \<Rightarrow> panic + bool" where
  "Equal r None = Inr False"
| "Equal r (Some e) =
     (case As (Some e) of
        Some (Some bizErr) \<Rightarrow>
          if Key r = key bizErr then Inr True
          else if err bizErr \<noteq> None then Equal r (map_option Chain (err bizErr))
          else Inr False
      | Some None \<Rightarrow> Inl nilDereference
      | None \<Rightarrow> Inr False)"
  by pat_completeness auto
termination
proof (relation "measure (\<lambda>(r, e). case e of Some (Chain x) \<Rightarrow> Suc (size x) | _ \<Rightarrow> 0)")
  show "wf (measure (\<lambda>(r, e). case e of Some (Chain x) \<Rightarrow> Suc (size x) | _ \<Rightarrow> 0))"
    by simp
next
  fix r :: "'c BizCode" and e x2 b
  assume a: "As (Some e) = Some x2" and b: "x2 = Some b" and "Key r \<noteq> key b"
    and n: "err b \<noteq> None"
  have found: "As_from y = Some d \<Longrightarrow> size d < size y" for y d
    by (induction y rule: As_from.induct) auto
  from n obtain c where c: "err b = Some c" by auto
  then have inner: "size c < size b" by (cases b) auto
  from a b obtain x where x: "e = Chain x" "As_from x = Some b"
    by (cases e) auto
  from found [OF x(2)] inner c x(1)
  show "((r, map_option Chain (err b)), (r, Some e))
          \<in> measure (\<lambda>(r, e). case e of Some (Chain x) \<Rightarrow> Suc (size x) | _ \<Rightarrow> 0)"
    by simp
qed

declare Equal.simps [simp del]

section \<open>The tree initializer\<close>

definition bizCodeKey :: string where
  "bizCodeKey = ''Key''"

definition bizCodePrefix :: string where
  "bizCodePrefix = ''prefix''"

text \<open>
  What \<open>reflect\<close> shows of a struct. A value is of type \<open>BizCode\<close>, of another
  struct type (with its fields, in declaration order), or of a kind that is not
  a struct (a string, a number, a pointer, an interface, ...), kept as an opaque
  rendering. A field has its name, whether the name is exported, its tag as the
  list of its \<open>key:"value"\<close> pairs, and its value.
\<close>

datatype 'c goValue =
    BizCodeValue "'c BizCode"
  | StructValue "'c field list"
  | OtherValue string
  and 'c field =
    Field (fieldName: string) (exported: bool) (fieldTag: "(string \<times> string) list")
      (fieldValue: "'c goValue")

text \<open>\<open>StructTag.Get\<close>: the value of the first pair with that key, or the empty string.\<close>

definition Get :: "(string \<times> string) list \<Rightarrow> string \<Rightarrow> string" where
  "Get tg k = (case map_of tg k of None \<Rightarrow> [] | Some v \<Rightarrow> v)"

text \<open>
  The struct that \<open>InitModule\<close> walks is the pointee of a non-nil pointer
  (\<open>reflect.ValueOf(obj).Elem()\<close>), so each of its fields is addressable, and a
  field is read-only exactly when its name is not exported. Hence \<open>CanAddr\<close> is
  true, \<open>CanSet\<close> holds for the exported fields, and \<open>Addr().Interface()\<close>
  panics on a field that is not exported.
\<close>


definition CanSet :: "'c field \<Rightarrow> bool" where
  "CanSet f = exported f"

definition CanAddr :: "'c field \<Rightarrow> bool" where
  "CanAddr f = True"

definition AddrInterface :: "'c field \<Rightarrow> panic + 'c goValue" where
  "AddrInterface f =
     (if exported f then Inr (fieldValue f)
      else Inl (Panic
        ''reflect.Value.Interface: cannot return value obtained from unexported field or method''))"

text \<open>
  The body of \<open>InitModule\<close> once its argument has passed the guards: \<open>InitStruct\<close>
  is the loop over the fields of the struct, \<open>InitField\<close> one iteration. The
  result is the struct after the call, or the panic that ends it.

  The recursive call \<open>InitModule(nestedPrefix, fieldValue.Addr().Interface())\<close>
  hands over a non-nil pointer to a struct, so it passes the guards and runs the
  loop on the nested struct. \<open>BizCode\<close> is a struct type too: the call is made
  for a \<open>BizCode\<close> field as well, and there the loop meets the fields \<open>ctx\<close> (an
  interface) and \<open>Key\<close> (a string), neither a \<open>BizCode\<close> nor a struct, and
  changes nothing.
\<close>

fun InitField :: "string \<Rightarrow> 'c field \<Rightarrow> panic + 'c field"
  and InitStruct :: "string \<Rightarrow> 'c field list \<Rightarrow> panic + 'c field list" where
  "InitField prefix (Field nm ex tg (BizCodeValue c)) =
     (let c' = (if CanSet (Field nm ex tg (BizCodeValue c)) \<and> Get tg bizCodeKey \<noteq> []
                then c\<lparr>Key := prefix @ Get tg bizCodeKey\<rparr> else c)
      in if CanAddr (Field nm ex tg (BizCodeValue c'))
         then (case AddrInterface (Field nm ex tg (BizCodeValue c')) of
                 Inl p \<Rightarrow> Inl p
               | Inr v \<Rightarrow> Inr (Field nm ex tg v))
         else Inr (Field nm ex tg (BizCodeValue c')))"
| "InitField prefix (Field nm ex tg (StructValue gs)) =
     (let nestedPrefix =
            (if Get tg bizCodePrefix \<noteq> [] then prefix @ Get tg bizCodePrefix else prefix)
      in if CanAddr (Field nm ex tg (StructValue gs))
         then (case AddrInterface (Field nm ex tg (StructValue gs)) of
                 Inl p \<Rightarrow> Inl p
               | Inr v \<Rightarrow>
                   (case InitStruct nestedPrefix gs of
                      Inl p \<Rightarrow> Inl p
                    | Inr gs' \<Rightarrow> Inr (Field nm ex tg (StructValue gs'))))
         else Inr (Field nm ex tg (StructValue gs)))"
| "InitField prefix (Field nm ex tg (OtherValue s)) = Inr (Field nm ex tg (OtherValue s))"
| "InitStruct prefix [] = Inr []"
| "InitStruct prefix (f # fs) =
     (case InitField prefix f of
        Inl p \<Rightarrow> Inl p
      | Inr f' \<Rightarrow>
          (case InitStruct prefix fs of
             Inl p \<Rightarrow> Inl p
           | Inr fs' \<Rightarrow> Inr (f' # fs')))"

text \<open>
  The argument of \<open>InitModule\<close>: a nil interface, a value that is not a pointer,
  or a pointer, nil or to a value. The result is the argument after the call.
  A pointer to a \<open>BizCode\<close> passes the guards, and the loop over the fields
  \<open>ctx\<close> and \<open>Key\<close> of the \<open>BizCode\<close> changes nothing.
\<close>

datatype 'c target = NilInterface | NonPointer "'c goValue" | Pointer "'c goValue option"

fun InitModule :: "string \<Rightarrow> 'c target \<Rightarrow> panic + 'c target" where
  "InitModule prefix NilInterface = Inr NilInterface"
| "InitModule prefix (NonPointer v) = Inr (NonPointer v)"
| "InitModule prefix (Pointer None) = Inr (Pointer None)"
| "InitModule prefix (Pointer (Some (OtherValue s))) = Inr (Pointer (Some (OtherValue s)))"
| "InitModule prefix (Pointer (Some (BizCodeValue c))) = Inr (Pointer (Some (BizCodeValue c)))"
| "InitModule prefix (Pointer (Some (StructValue fs))) =
     (case InitStruct prefix fs of
        Inl p \<Rightarrow> Inl p
      | Inr fs' \<Rightarrow> Inr (Pointer (Some (StructValue fs'))))"

text \<open>
  Whether every \<open>BizCode\<close> field and every struct field of a struct is exported,
  at every depth of nesting.
\<close>

fun allExported :: "'c field \<Rightarrow> bool"
  and allExportedFields :: "'c field list \<Rightarrow> bool" where
  "allExported (Field nm ex tg (BizCodeValue c)) = ex"
| "allExported (Field nm ex tg (StructValue gs)) = (ex \<and> allExportedFields gs)"
| "allExported (Field nm ex tg (OtherValue s)) = True"
| "allExportedFields [] = True"
| "allExportedFields (f # fs) = (allExported f \<and> allExportedFields fs)"

section \<open>Chains\<close>

text \<open>
  The \<open>*BizError\<close> nodes of a chain, outermost first: those met by unwrapping
  from the error down to the error that unwraps no further. A nil pointer is
  no node.
\<close>

fun nodes_from :: "error \<Rightarrow> BizError list" where
  "nodes_from (ErrorString msg) = []"
| "nodes_from (WrapError msg e) = nodes_from e"
| "nodes_from (Biz (BizError k c u s)) =
     BizError k c u s # (case c of None \<Rightarrow> [] | Some e \<Rightarrow> nodes_from e)"

fun nodes :: "errorValue option \<Rightarrow> BizError list" where
  "nodes None = []"
| "nodes (Some (Chain x)) = nodes_from x"
| "nodes (Some (NilBizError ws)) = []"

text \<open>All nodes of a chain carry the same uuid and the same stack.\<close>

definition sameOrigin :: "errorValue option \<Rightarrow> bool" where
  "sameOrigin e =
     (\<forall>m \<in> set (nodes e). \<forall>n \<in> set (nodes e). uuid m = uuid n \<and> stack m = stack n)"

text \<open>
  A chain built by nested wraps, as \<open>a1\<close>, \<open>a2\<close> and \<open>a3\<close> of the tests build
  one: the wraps are listed innermost first, each with its code, the call stack
  at its call and its values, and each wraps the result of the one before. A
  panic of one of them ends the whole.
\<close>

fun WrapAll ::
  "('c BizCode \<times> frame list \<times> 'v list) list \<Rightarrow> errorValue option \<Rightarrow> ('c, 'v) logger
     \<Rightarrow> panic + (errorValue option \<times> ('c, 'v) logger)" where
  "WrapAll [] e lg = Inr (e, lg)"
| "WrapAll ((r, cs, obj) # ws) e lg =
     (case Wrap r cs e obj lg of
        Inl p \<Rightarrow> Inl p
      | Inr (e', lg') \<Rightarrow> WrapAll ws e' lg')"

section \<open>The examples of the tests\<close>

text \<open>
  Three call sites of \<open>Wrap\<close>; the innermost frame is the one of \<open>Wrap\<close>
  itself. The function of the second site is unknown to \<open>runtime.FuncForPC\<close>.
\<close>

definition wrapFrame :: frame where
  "wrapFrame = \<lparr>fileName = ''/go/src/bizgo/errors/code.go'',
                 funcName = Some ''bizgo/errors.BizCode.Wrap'', lineNo = 76\<rparr>"

definition repoSite :: "frame list" where
  "repoSite = [wrapFrame,
     \<lparr>fileName = ''/app/repo.go'', funcName = Some ''example.com/app/repo.load'', lineNo = 10\<rparr>]"

definition serviceSite :: "frame list" where
  "serviceSite = [wrapFrame, \<lparr>fileName = ''/app/service.go'', funcName = None, lineNo = 7\<rparr>]"

definition handlerSite :: "frame list" where
  "handlerSite = [wrapFrame,
     \<lparr>fileName = ''/app/handler.go'', funcName = Some ''example.com/app/handler.serve'',
      lineNo = 20\<rparr>]"

definition noLog :: "(string option, string) logger" where
  "noLog = \<lparr>received = [], printed = []\<rparr>"

text \<open>\<open>BizCode{Key: k}\<close>, with a nil context.\<close>

definition code :: "string \<Rightarrow> string option BizCode" where
  "code k = \<lparr>ctx = None, Key = k\<rparr>"

text \<open>
  The functions \<open>a1\<close>, \<open>a2\<close> and \<open>a3\<close> of the tests, with the logger after each:
  \<open>a2\<close> wraps what \<open>a1\<close> returns, and \<open>a3\<close> what \<open>a2\<close> returns.
\<close>

definition a1 :: "panic + (errorValue option \<times> (string option, string) logger)" where
  "a1 = WrapAll [(code ''a1'', repoSite, [''a1''])] (Some (Chain (ErrorString ''a1 error''))) noLog"

definition a2 :: "panic + (errorValue option \<times> (string option, string) logger)" where
  "a2 = WrapAll [(code ''a1'', repoSite, [''a1'']), (code ''a2'', serviceSite, [''a2''])]
          (Some (Chain (ErrorString ''a1 error''))) noLog"

definition a3 :: "panic + (errorValue option \<times> (string option, string) logger)" where
  "a3 = WrapAll [(code ''a1'', repoSite, [''a1'']), (code ''a2'', serviceSite, [''a2'']),
                 (code ''a3'', handlerSite, [''a3''])]
          (Some (Chain (ErrorString ''a1 error''))) noLog"

text \<open>The node that \<open>a1\<close> builds.\<close>

definition a1Node :: BizError where
  "a1Node = BizError ''a1'' (Some (ErrorString ''a1 error'')) ''123'' (callers repoSite)"

text \<open>
  The struct \<open>TestErrorCodes\<close> of the tests, as a function of the keys its eight
  codes hold; every field is exported.
\<close>

definition codeField :: "string \<Rightarrow> string \<Rightarrow> string \<Rightarrow> string option field" where
  "codeField nm k v = Field nm True [(bizCodeKey, k)] (BizCodeValue \<lparr>ctx = None, Key = v\<rparr>)"

definition TestErrorCodes ::
  "string \<Rightarrow> string \<Rightarrow> string \<Rightarrow> string \<Rightarrow> string \<Rightarrow> string \<Rightarrow> string \<Rightarrow> string
     \<Rightarrow> string option field list" where
  "TestErrorCodes common auth userNotFound userInvalid orderNotFound orderInvalid failed canceled =
     [codeField ''Common'' ''common'' common,
      codeField ''Auth'' ''auth'' auth,
      Field ''User'' True [(bizCodePrefix, ''user'')]
        (StructValue [codeField ''NotFound'' ''notFound'' userNotFound,
                      codeField ''Invalid'' ''invalid'' userInvalid]),
      Field ''Order'' True [(bizCodePrefix, ''order'')]
        (StructValue [codeField ''NotFound'' ''notFound'' orderNotFound,
                      codeField ''Invalid'' ''invalid'' orderInvalid,
                      Field ''Payment'' True [(bizCodePrefix, ''payment'')]
                        (StructValue [codeField ''Failed'' ''failed'' failed,
                                      codeField ''Canceled'' ''canceled'' canceled])])]"

section \<open>Chains and their nodes\<close>

lemma As_Chain: "As (Some (Chain x)) \<noteq> Some None"
  by simp

lemma As_map_Chain: "As (map_option Chain c) \<noteq> Some None"
  by (cases c) simp_all

lemma As_nil: "As e = Some None \<Longrightarrow> \<exists>ws. e = Some (NilBizError ws)"
  by (induction e rule: As.induct) auto

lemma not_nil_cases:
  assumes "As (Some e) \<noteq> Some None"
  obtains cause where "e = Chain cause"
  using assms by (cases e) auto

lemma nodes_from_Biz: "nodes_from (Biz b) = b # nodes (map_option Chain (err b))"
proof -
  obtain k c u s where b: "b = BizError k c u s" by (cases b) auto
  show ?thesis unfolding b by (cases c) simp_all
qed

lemma nodes_Biz: "nodes (Some (Chain (Biz b))) = b # nodes (map_option Chain (err b))"
  by (simp add: nodes_from_Biz)

lemma nodes_Unwrap: "nodes (Some (Chain (Biz b))) = b # nodes (map_option Chain (Unwrap b))"
  by (simp add: nodes_from_Biz Unwrap_def)

lemma As_from_Some_nodes:
  "As_from x = Some b \<Longrightarrow> nodes_from x = b # nodes (map_option Chain (err b))"
  by (induction x rule: As_from.induct) (simp_all add: nodes_from_Biz)

lemma As_from_None_nodes: "As_from x = None \<Longrightarrow> nodes_from x = []"
  by (induction x rule: nodes_from.induct) auto

lemma As_Some_nodes: "As e = Some (Some b) \<Longrightarrow> nodes e = b # nodes (map_option Chain (err b))"
  by (induction e rule: As.induct) (auto simp: As_from_Some_nodes)

lemma As_None_nodes: "As e = None \<Longrightarrow> nodes e = []"
  by (induction e rule: As.induct) (auto simp: As_from_None_nodes)

text \<open>
  Unless the error is a nil \<open>*BizError\<close>, \<open>Equal\<close> returns, and returns true
  exactly when some node of the chain has the key of the code.
\<close>

lemma Equal_iff_nodes:
  "As e \<noteq> Some None \<Longrightarrow> Equal r e = Inr (\<exists>n \<in> set (nodes e). key n = Key r)"
proof (induction r e rule: Equal.induct)
  case (1 r)
  show ?case by (simp add: Equal.simps)
next
  case (2 r e)
  show ?case
  proof (cases "As (Some e)")
    case None
    then show ?thesis by (simp add: Equal.simps As_None_nodes)
  next
    case (Some p)
    with "2.prems" obtain b where p: "p = Some b" by (cases p) auto
    from Some p have found: "As (Some e) = Some (Some b)" by simp
    note nd = As_Some_nodes [OF found]
    show ?thesis
    proof (cases "Key r = key b")
      case True
      with found nd show ?thesis by (simp add: Equal.simps)
    next
      case False
      show ?thesis
      proof (cases "err b")
        case None
        with found nd False show ?thesis by (auto simp: Equal.simps)
      next
        case (Some c)
        then have "err b \<noteq> None" by simp
        from "2.IH" [OF \<open>As (Some e) = Some p\<close> p False this As_map_Chain]
        have "Equal r (map_option Chain (err b))
            = Inr (\<exists>n \<in> set (nodes (map_option Chain (err b))). key n = Key r)" .
        with found nd False Some show ?thesis by (auto simp: Equal.simps)
      qed
    qed
  qed
qed

lemma Equal_nil: "Equal r (Some (NilBizError ws)) = Inl nilDereference"
  by (simp add: Equal.simps)

text \<open>What \<open>Wrap\<close> returns on a cause that is not nil.\<close>

lemma Wrap_Chain:
  "Wrap r cs (Some (Chain e)) obj lg =
     Inr (Some (Chain (Biz (BizError (Key r) (Some e)
        (case As_from e of Some b \<Rightarrow> uuid b | None \<Rightarrow> ''123'')
        (case As_from e of Some b \<Rightarrow> stack b | None \<Rightarrow> callers cs)))),
      PrintBizError
        \<lparr>Ctx = ctx r, Err = e, Location = captureLocation 1 cs, Value = obj,
         Uuid = (case As_from e of Some b \<Rightarrow> uuid b | None \<Rightarrow> ''123'')\<rparr> lg)"
  by (simp add: Wrap_def Let_def split: option.splits)

lemma Wrap_NilBizError: "Wrap r cs (Some (NilBizError ws)) obj lg = Inl nilDereference"
  by (simp add: Wrap_def)

lemma Wrap_result:
  "\<exists>n lg'. Wrap r cs (Some (Chain e)) obj lg = Inr (Some (Chain (Biz n)), lg')
       \<and> key n = Key r
       \<and> nodes (Some (Chain (Biz n))) = n # nodes (Some (Chain e))
       \<and> uuid n = (case As_from e of Some b \<Rightarrow> uuid b | None \<Rightarrow> ''123'')
       \<and> stack n = (case As_from e of Some b \<Rightarrow> stack b | None \<Rightarrow> callers cs)"
  by (simp add: Wrap_Chain nodes_Biz)

text \<open>Nested wraps of an error that is not a nil \<open>*BizError\<close> do not panic.\<close>

lemma WrapAll_Chain:
  "\<exists>ch lg'. WrapAll ws (Some (Chain e)) lg = Inr (Some (Chain ch), lg')
      \<and> map key (nodes (Some (Chain ch)))
          = rev (map (\<lambda>w. Key (fst w)) ws) @ map key (nodes (Some (Chain e)))"
proof (induction ws arbitrary: e lg)
  case Nil
  show ?case by simp
next
  case (Cons w ws)
  obtain r cs obj where w: "w = (r, cs, obj)" by (cases w) auto
  obtain n lg1 where n: "Wrap r cs (Some (Chain e)) obj lg = Inr (Some (Chain (Biz n)), lg1)"
      "key n = Key r" "nodes (Some (Chain (Biz n))) = n # nodes (Some (Chain e))"
    using Wrap_result [of r cs e obj lg] by blast
  from Cons.IH [of "Biz n" lg1] obtain ch lg' where
    ch: "WrapAll ws (Some (Chain (Biz n))) lg1 = Inr (Some (Chain ch), lg')"
      "map key (nodes (Some (Chain ch)))
         = rev (map (\<lambda>w. Key (fst w)) ws) @ map key (nodes (Some (Chain (Biz n))))"
    by blast
  have "WrapAll (w # ws) (Some (Chain e)) lg = Inr (Some (Chain ch), lg')"
    using w n(1) ch(1) by simp
  moreover have "map key (nodes (Some (Chain ch)))
      = rev (map (\<lambda>w. Key (fst w)) (w # ws)) @ map key (nodes (Some (Chain e)))"
    using ch(2) n(2,3) w by simp
  ultimately show ?case by blast
qed

lemma WrapAll_NilBizError:
  "ws \<noteq> [] \<Longrightarrow> WrapAll ws (Some (NilBizError ms)) lg = Inl nilDereference"
  by (cases ws) (auto simp: Wrap_NilBizError)

lemma sameOrigin_ConsI:
  assumes "nodes ch = n # ns" and "\<forall>m \<in> set ns. uuid m = uuid n \<and> stack m = stack n"
  shows "sameOrigin ch"
proof -
  have "uuid m = uuid n \<and> stack m = stack n" if "m \<in> set (n # ns)" for m
    using that assms(2) by auto
  then have "uuid m = uuid k \<and> stack m = stack k"
    if "m \<in> set (n # ns)" and "k \<in> set (n # ns)" for m k
    using that by metis
  then show ?thesis unfolding sameOrigin_def assms(1) by blast
qed

lemma sameOrigin_Wrap:
  assumes "sameOrigin (Some (Chain e))"
    and "Wrap r cs (Some (Chain e)) obj lg = Inr (Some (Chain (Biz n)), lg')"
  shows "sameOrigin (Some (Chain (Biz n)))"
proof -
  from assms(2) have n: "n = BizError (Key r) (Some e)
        (case As_from e of Some b \<Rightarrow> uuid b | None \<Rightarrow> ''123'')
        (case As_from e of Some b \<Rightarrow> stack b | None \<Rightarrow> callers cs)"
    by (simp add: Wrap_Chain)
  then have nd: "nodes (Some (Chain (Biz n))) = n # nodes (Some (Chain e))"
    by (simp add: nodes_Biz)
  have "\<forall>m \<in> set (nodes (Some (Chain e))). uuid m = uuid n \<and> stack m = stack n"
  proof (cases "As_from e")
    case None
    then show ?thesis by (simp add: As_from_None_nodes)
  next
    case (Some b)
    from As_from_Some_nodes [OF Some] have "b \<in> set (nodes (Some (Chain e)))" by simp
    with assms(1)
    have "\<forall>m \<in> set (nodes (Some (Chain e))). uuid m = uuid b \<and> stack m = stack b"
      unfolding sameOrigin_def by blast
    with n Some show ?thesis by simp
  qed
  from sameOrigin_ConsI [OF nd this] show ?thesis .
qed

lemma sameOrigin_WrapAll:
  "sameOrigin (Some (Chain e)) \<Longrightarrow>
     \<exists>ch lg'. WrapAll ws (Some (Chain e)) lg = Inr (ch, lg') \<and> sameOrigin ch"
proof (induction ws arbitrary: e lg)
  case Nil
  then show ?case by simp
next
  case (Cons w ws)
  obtain r cs obj where w: "w = (r, cs, obj)" by (cases w) auto
  obtain n lg1 where n: "Wrap r cs (Some (Chain e)) obj lg = Inr (Some (Chain (Biz n)), lg1)"
    using Wrap_result [of r cs e obj lg] by blast
  from sameOrigin_Wrap [OF Cons.prems n] have "sameOrigin (Some (Chain (Biz n)))" .
  from Cons.IH [OF this, of lg1] obtain ch lg' where
    "WrapAll ws (Some (Chain (Biz n))) lg1 = Inr (ch, lg')" "sameOrigin ch"
    by blast
  with n w show ?case by simp
qed

text \<open>The chains of the tests.\<close>

lemma a1_value:
  "a1 = Inr (Some (Chain (Biz a1Node)),
             PrintBizError \<lparr>Ctx = None, Err = ErrorString ''a1 error'',
               Location = captureLocation 1 repoSite, Value = [''a1''], Uuid = ''123''\<rparr> noLog)"
  by (simp add: a1_def a1Node_def code_def Wrap_Chain)

lemma a2_value:
  "a2 = Wrap (code ''a2'') serviceSite (Some (Chain (Biz a1Node))) [''a2'']
          (PrintBizError \<lparr>Ctx = None, Err = ErrorString ''a1 error'',
             Location = captureLocation 1 repoSite, Value = [''a1''], Uuid = ''123''\<rparr> noLog)"
  by (simp add: a2_def a1Node_def code_def Wrap_Chain)

lemma a3_nodes:
  "\<exists>ch lg. a3 = Inr (Some (Chain ch), lg)
      \<and> map key (nodes (Some (Chain ch))) = [''a3'', ''a2'', ''a1'']"
  using WrapAll_Chain [of "[(code ''a1'', repoSite, [''a1'']), (code ''a2'', serviceSite, [''a2'']),
      (code ''a3'', handlerSite, [''a3''])]" "ErrorString ''a1 error''" noLog]
  by (simp add: a3_def code_def)

section \<open>Equal\<close>

text \<open>
  C1. Nested wraps of a base error that is not nil build a chain, unless the
  base is a nil \<open>*BizError\<close>, on which the first wrap panics. On the chain
  built, \<open>Equal\<close> is true for the code of every wrap, whatever its depth in the
  chain, and false for a code whose key is the key of no node of the chain.
  (Without any wrap the chain is the base itself, which must then not be a nil
  \<open>*BizError\<close>.)
\<close>

theorem Equal_matches_any_depth:
  "(As (Some baseErr) \<noteq> Some None \<longrightarrow>
      (\<exists>chain lg'. WrapAll ws (Some baseErr) lg = Inr (chain, lg')))
   \<and> (WrapAll ws (Some baseErr) lg = Inr (chain, lg') \<longrightarrow>
        (\<forall>w \<in> set ws. Equal (fst w) chain = Inr True)
      \<and> ((ws \<noteq> [] \<or> As (Some baseErr) \<noteq> Some None)
           \<and> (\<forall>n \<in> set (nodes chain). key n \<noteq> Key c)
         \<longrightarrow> Equal c chain = Inr False))"
proof (intro conjI impI)
  assume "As (Some baseErr) \<noteq> Some None"
  then obtain e where "baseErr = Chain e" by (rule not_nil_cases)
  with WrapAll_Chain [of ws e lg]
  show "\<exists>chain lg'. WrapAll ws (Some baseErr) lg = Inr (chain, lg')" by auto
next
  assume built: "WrapAll ws (Some baseErr) lg = Inr (chain, lg')"
  show "\<forall>w \<in> set ws. Equal (fst w) chain = Inr True"
  proof
    fix w assume w: "w \<in> set ws"
    then have "ws \<noteq> []" by auto
    with built obtain e where e: "baseErr = Chain e"
      by (cases baseErr) (auto simp: WrapAll_NilBizError)
    from WrapAll_Chain [of ws e lg] built e obtain ch where
      ch: "chain = Some (Chain ch)"
        "map key (nodes chain) = rev (map (\<lambda>w. Key (fst w)) ws) @ map key (nodes (Some (Chain e)))"
      by auto
    from w have "Key (fst w) \<in> (\<lambda>w. Key (fst w)) ` set ws" by (rule imageI)
    then have "Key (fst w) \<in> set (map key (nodes chain))" unfolding ch(2) by simp
    then have "\<exists>n \<in> set (nodes chain). key n = Key (fst w)" by auto
    moreover have "As chain \<noteq> Some None" unfolding ch(1) by (rule As_Chain)
    ultimately show "Equal (fst w) chain = Inr True" by (simp add: Equal_iff_nodes)
  qed
next
  assume built: "WrapAll ws (Some baseErr) lg = Inr (chain, lg')"
    and side: "(ws \<noteq> [] \<or> As (Some baseErr) \<noteq> Some None)
      \<and> (\<forall>n \<in> set (nodes chain). key n \<noteq> Key c)"
  have "\<exists>e. baseErr = Chain e"
  proof (cases baseErr)
    case (Chain e)
    then show ?thesis by simp
  next
    case (NilBizError ms)
    with side have "ws \<noteq> []" by simp
    with built NilBizError show ?thesis by (simp add: WrapAll_NilBizError)
  qed
  then obtain e where e: "baseErr = Chain e" by blast
  from WrapAll_Chain [of ws e lg] built e obtain ch where "chain = Some (Chain ch)" by auto
  then have "As chain \<noteq> Some None" by simp
  from Equal_iff_nodes [OF this, of c] side show "Equal c chain = Inr False" by auto
qed

text \<open>
  The chain \<open>a3\<close> of the tests: the codes \<open>a1\<close>, \<open>a2\<close> and \<open>a3\<close> are found in it,
  the code \<open>nonexist\<close> is not.
\<close>

theorem Equal_matches_any_depth_witness:
  "\<exists>chain lg. a3 = Inr (chain, lg)
     \<and> Equal (code ''a1'') chain = Inr True \<and> Equal (code ''a2'') chain = Inr True
     \<and> Equal (code ''a3'') chain = Inr True \<and> Equal (code ''nonexist'') chain = Inr False"
proof -
  from a3_nodes obtain ch lg where a3: "a3 = Inr (Some (Chain ch), lg)"
    and keys: "map key (nodes (Some (Chain ch))) = [''a3'', ''a2'', ''a1'']"
    by (elim exE conjE)
  have "key n \<noteq> Key (code ''nonexist'')" if "n \<in> set (nodes (Some (Chain ch)))" for n
  proof -
    from that have "key n \<in> set (map key (nodes (Some (Chain ch))))" by simp
    then show ?thesis unfolding keys by (auto simp: code_def)
  qed
  then have none: "\<forall>n \<in> set (nodes (Some (Chain ch))). key n \<noteq> Key (code ''nonexist'')"
    by blast
  from a3 have built: "WrapAll [(code ''a1'', repoSite, [''a1'']),
      (code ''a2'', serviceSite, [''a2'']), (code ''a3'', handlerSite, [''a3''])]
      (Some (Chain (ErrorString ''a1 error''))) noLog = Inr (Some (Chain ch), lg)"
    by (simp add: a3_def)
  from Equal_matches_any_depth [of "Chain (ErrorString ''a1 error'')"
      "[(code ''a1'', repoSite, [''a1'']), (code ''a2'', serviceSite, [''a2'']),
        (code ''a3'', handlerSite, [''a3''])]" noLog "Some (Chain ch)" lg "code ''nonexist''"]
    built none
  have "Equal (code ''a1'') (Some (Chain ch)) = Inr True
      \<and> Equal (code ''a2'') (Some (Chain ch)) = Inr True
      \<and> Equal (code ''a3'') (Some (Chain ch)) = Inr True
      \<and> Equal (code ''nonexist'') (Some (Chain ch)) = Inr False"
    by simp
  with a3 show ?thesis by (intro exI [of _ "Some (Chain ch)"] exI [of _ lg]) simp
qed

section \<open>Wrap\<close>

text \<open>
  C2. Two chains started independently, each by a wrap of a cause without a
  \<open>*BizError\<close>, should carry different uuids. The first wrap assigns the
  constant \<open>123\<close>: the nodes of the two chains below carry the same uuid.
\<close>

theorem Wrap_first_uuid_constant:
  "map_sum id (map uuid \<circ> nodes \<circ> fst)
     (Wrap (code ''a'') repoSite (Some (Chain (ErrorString ''first''))) [] noLog)
     = Inr [''123'']
   \<and> map_sum id (map uuid \<circ> nodes \<circ> fst)
     (Wrap (code ''b'') handlerSite (Some (Chain (ErrorString ''second''))) [] noLog)
     = Inr [''123'']"
  by (simp add: Wrap_Chain)

text \<open>
  C3. Wrapping a cause in whose chain \<open>errors.As\<close> finds a \<open>*BizError\<close> gives a
  node with the uuid and the stack of the node found. Hence, when the nodes of
  the cause share one uuid and one stack, so do the nodes of the new chain, and
  of every chain built from it by further wraps.
\<close>

theorem Wrap_inherits_origin:
  assumes "As (Some e) = Some (Some b)"
  shows "\<exists>n lg'. Wrap r cs (Some e) obj lg = Inr (Some (Chain (Biz n)), lg')
           \<and> uuid n = uuid b \<and> stack n = stack b
           \<and> (sameOrigin (Some e) \<longrightarrow>
                sameOrigin (Some (Chain (Biz n)))
              \<and> (\<exists>ch lg3. WrapAll ws (Some (Chain (Biz n))) lg2 = Inr (ch, lg3)
                    \<and> sameOrigin ch))"
proof -
  from assms obtain x where x: "e = Chain x" "As_from x = Some b"
    by (cases e) auto
  obtain n lg' where n: "Wrap r cs (Some (Chain x)) obj lg = Inr (Some (Chain (Biz n)), lg')"
      "uuid n = (case As_from x of Some b \<Rightarrow> uuid b | None \<Rightarrow> ''123'')"
      "stack n = (case As_from x of Some b \<Rightarrow> stack b | None \<Rightarrow> callers cs)"
    using Wrap_result [of r cs x obj lg] by blast
  have one: "sameOrigin (Some (Chain (Biz n)))" if "sameOrigin (Some e)"
    using sameOrigin_Wrap [OF that [unfolded x(1)] n(1)] .
  have more: "\<exists>ch lg3. WrapAll ws (Some (Chain (Biz n))) lg2 = Inr (ch, lg3) \<and> sameOrigin ch"
    if "sameOrigin (Some e)"
    using sameOrigin_WrapAll [OF one [OF that], of ws lg2] .
  from n x have "uuid n = uuid b" "stack n = stack b" by simp_all
  with n(1) one more x(1) show ?thesis by blast
qed

text \<open>
  In the tests, \<open>a2\<close> wraps the result of \<open>a1\<close>: its node has the uuid and the
  stack that \<open>a1\<close> assigned at its own call site.
\<close>

theorem Wrap_inherits_origin_witness:
  "As (Some (Chain (Biz a1Node))) = Some (Some a1Node)
   \<and> (\<exists>n lg. a2 = Inr (Some (Chain (Biz n)), lg) \<and> uuid n = ''123''
          \<and> stack n = callers repoSite \<and> sameOrigin (Some (Chain (Biz n))))"
proof -
  have b: "As (Some (Chain (Biz a1Node))) = Some (Some a1Node)" by simp
  have s: "sameOrigin (Some (Chain (Biz a1Node)))"
    by (simp add: sameOrigin_def a1Node_def)
  from Wrap_inherits_origin [OF b, of "code ''a2''" serviceSite "[''a2'']"
      "PrintBizError \<lparr>Ctx = None, Err = ErrorString ''a1 error'',
         Location = captureLocation 1 repoSite, Value = [''a1''], Uuid = ''123''\<rparr> noLog"
      "[]" noLog] s
  obtain n lg where "a2 = Inr (Some (Chain (Biz n)), lg)" "uuid n = uuid a1Node"
      "stack n = stack a1Node" "sameOrigin (Some (Chain (Biz n)))"
    unfolding a2_value by blast
  with b show ?thesis by (auto simp: a1Node_def)
qed




text \<open>C7. Wrapping nil returns nil; no node is built and the logger is not called.\<close>

theorem Wrap_nil: "Wrap c cs None obj lg = Inr (None, lg)"
  by (simp add: Wrap_def)




section \<open>Is\<close>



section \<open>InitModule\<close>

text \<open>One iteration of the loop, on an exported field.\<close>

lemma InitField_BizCode:
  "InitField p (Field nm True tg (BizCodeValue c)) =
     Inr (Field nm True tg
       (BizCodeValue (if Get tg bizCodeKey \<noteq> [] then c\<lparr>Key := p @ Get tg bizCodeKey\<rparr> else c)))"
  by (simp add: CanSet_def CanAddr_def AddrInterface_def Let_def)

lemma InitField_Struct:
  "InitField p (Field nm True tg (StructValue gs)) =
     (case InitStruct (p @ Get tg bizCodePrefix) gs of
        Inl e \<Rightarrow> Inl e
      | Inr gs' \<Rightarrow> Inr (Field nm True tg (StructValue gs')))"
  by (simp add: CanAddr_def AddrInterface_def Let_def)

text \<open>The loop treats the fields one by one and keeps their number.\<close>

lemma InitStruct_nth:
  "InitStruct p fs = Inr fs' \<Longrightarrow>
     length fs' = length fs \<and> (\<forall>i < length fs. InitField p (fs ! i) = Inr (fs' ! i))"
proof (induction fs arbitrary: fs')
  case Nil
  then show ?case by simp
next
  case (Cons f fs)
  from Cons.prems obtain g gs where g: "InitField p f = Inr g" "InitStruct p fs = Inr gs"
      "fs' = g # gs"
    by (auto split: sum.splits)
  from Cons.IH [OF g(2)] g show ?case by (auto simp: nth_Cons split: nat.splits)
qed

text \<open>On a struct whose code and struct fields are all exported, the loop does not panic.\<close>

lemma InitStruct_total:
  "allExported (f :: 'c field) \<Longrightarrow> \<exists>f'. InitField p f = Inr f'"
  "allExportedFields (fs :: 'c field list) \<Longrightarrow> \<exists>fs'. InitStruct p fs = Inr fs'"
proof (induction f and fs arbitrary: p and p rule: allExported_allExportedFields.induct)
  case (1 nm ex tg c)
  then show ?case by (simp add: CanSet_def CanAddr_def AddrInterface_def Let_def)
next
  case (2 nm ex tg gs)
  then have ex: "ex = True" by simp
  from 2 obtain gs' where "InitStruct (p @ Get tg bizCodePrefix) gs = Inr gs'" by auto
  then show ?case unfolding ex InitField_Struct by simp
next
  case (3 nm ex tg s)
  then show ?case by simp
next
  case 4
  then show ?case by simp
next
  case (5 f fs)
  then have "\<exists>f'. InitField p f = Inr f'" "\<exists>fs'. InitStruct p fs = Inr fs'" by simp_all
  then show ?case by auto
qed

lemma allExportedFields_nth:
  "allExportedFields fs \<Longrightarrow> i < length fs \<Longrightarrow> allExported (fs ! i)"
  by (induction fs arbitrary: i) (auto simp: nth_Cons split: nat.splits)

lemma TestErrorCodes_app:
  "InitModule ''app'' (Pointer (Some (StructValue (TestErrorCodes [] [] [] [] [] [] [] []))))
     = Inr (Pointer (Some (StructValue
         (TestErrorCodes ''appcommon'' ''appauth'' ''appusernotFound'' ''appuserinvalid''
            ''appordernotFound'' ''apporderinvalid'' ''apporderpaymentfailed''
            ''apporderpaymentcanceled''))))"
  by (simp add: TestErrorCodes_def codeField_def CanSet_def CanAddr_def AddrInterface_def
      Get_def bizCodeKey_def bizCodePrefix_def)

text \<open>
  C4, as the code has it. On a pointer to a struct whose \<open>BizCode\<close> fields and
  struct fields are all exported, at every depth, \<open>InitModule\<close> returns, and in
  the struct it leaves: a \<open>BizCode\<close> field whose tag \<open>Key\<close> has a value \<open>t\<close> that
  is not empty has the key \<open>p + t\<close>; a nested struct field whose tag \<open>prefix\<close>
  has the value \<open>q\<close> holds what \<open>InitModule\<close> with the prefix \<open>p + q\<close> makes of
  it; a nested struct field without the tag \<open>prefix\<close> holds what \<open>InitModule\<close>
  with the prefix \<open>p\<close> makes of it. With the prefix \<open>app\<close>, the keys of
  \<open>TestErrorCodes\<close> become \<open>appcommon\<close>, ..., \<open>appusernotFound\<close>, ...,
  \<open>apporderpaymentcanceled\<close>.
\<close>

theorem InitModule_composes_prefixes:
  "(allExportedFields fs \<longrightarrow>
      (\<exists>fs'. InitModule p (Pointer (Some (StructValue fs))) = Inr (Pointer (Some (StructValue fs')))
         \<and> length fs' = length fs
         \<and> (\<forall>i < length fs.
               (\<forall>c t. fieldValue (fs ! i) = BizCodeValue c
                        \<and> Get (fieldTag (fs ! i)) bizCodeKey = t \<and> t \<noteq> []
                  \<longrightarrow> fieldValue (fs' ! i) = BizCodeValue (c\<lparr>Key := p @ t\<rparr>))
             \<and> (\<forall>gs q. fieldValue (fs ! i) = StructValue gs
                        \<and> map_of (fieldTag (fs ! i)) bizCodePrefix = Some q
                  \<longrightarrow> InitModule (p @ q) (Pointer (Some (StructValue gs)))
                        = Inr (Pointer (Some (fieldValue (fs' ! i)))))
             \<and> (\<forall>gs. fieldValue (fs ! i) = StructValue gs
                        \<and> map_of (fieldTag (fs ! i)) bizCodePrefix = None
                  \<longrightarrow> InitModule p (Pointer (Some (StructValue gs)))
                        = Inr (Pointer (Some (fieldValue (fs' ! i))))))))
   \<and> InitModule ''app'' (Pointer (Some (StructValue (TestErrorCodes [] [] [] [] [] [] [] []))))
       = Inr (Pointer (Some (StructValue
           (TestErrorCodes ''appcommon'' ''appauth'' ''appusernotFound'' ''appuserinvalid''
              ''appordernotFound'' ''apporderinvalid'' ''apporderpaymentfailed''
              ''apporderpaymentcanceled''))))"
proof (intro conjI impI)
  assume settable: "allExportedFields fs"
  from InitStruct_total(2) [OF settable] obtain fs' where fs': "InitStruct p fs = Inr fs'"
    by blast
  note nth = InitStruct_nth [OF fs']
  have whole: "InitModule p (Pointer (Some (StructValue fs)))
      = Inr (Pointer (Some (StructValue fs')))"
    using fs' by simp
  have len: "length fs' = length fs" using nth by simp
  have codes: "fieldValue (fs' ! i) = BizCodeValue (c\<lparr>Key := p @ t\<rparr>)"
    if "i < length fs" "fieldValue (fs ! i) = BizCodeValue c"
       "Get (fieldTag (fs ! i)) bizCodeKey = t" "t \<noteq> []" for i c t
  proof -
    from nth that(1) have step: "InitField p (fs ! i) = Inr (fs' ! i)" by simp
    from allExportedFields_nth [OF settable that(1)] that(2) have "exported (fs ! i)"
      by (cases "fs ! i") auto
    with that(2) obtain nm tg where f: "fs ! i = Field nm True tg (BizCodeValue c)"
      by (cases "fs ! i") auto
    from step [symmetric] that(3,4) show ?thesis
      unfolding f InitField_BizCode by simp
  qed
  have sub: "InitModule (p @ Get (fieldTag (fs ! i)) bizCodePrefix)
        (Pointer (Some (StructValue gs))) = Inr (Pointer (Some (fieldValue (fs' ! i))))"
    if "i < length fs" "fieldValue (fs ! i) = StructValue gs" for i gs
  proof -
    from nth that(1) have step: "InitField p (fs ! i) = Inr (fs' ! i)" by simp
    from allExportedFields_nth [OF settable that(1)] that(2) have "exported (fs ! i)"
      by (cases "fs ! i") auto
    with that(2) obtain nm tg where f: "fs ! i = Field nm True tg (StructValue gs)"
      by (cases "fs ! i") auto
    from step [symmetric] show ?thesis
      unfolding f InitField_Struct by (auto split: sum.splits)
  qed
  have tagged: "InitModule (p @ q) (Pointer (Some (StructValue gs)))
        = Inr (Pointer (Some (fieldValue (fs' ! i))))"
    if "i < length fs" "fieldValue (fs ! i) = StructValue gs"
       "map_of (fieldTag (fs ! i)) bizCodePrefix = Some q" for i gs q
    using sub [OF that(1,2)] that(3) by (simp only: Get_def option.case)
  have untagged: "InitModule p (Pointer (Some (StructValue gs)))
        = Inr (Pointer (Some (fieldValue (fs' ! i))))"
    if "i < length fs" "fieldValue (fs ! i) = StructValue gs"
       "map_of (fieldTag (fs ! i)) bizCodePrefix = None" for i gs
    using sub [OF that(1,2)] that(3) by (simp only: Get_def option.case append_Nil2)
  from whole len codes tagged untagged
  show "\<exists>fs'. InitModule p (Pointer (Some (StructValue fs))) = Inr (Pointer (Some (StructValue fs')))
         \<and> length fs' = length fs
         \<and> (\<forall>i < length fs.
               (\<forall>c t. fieldValue (fs ! i) = BizCodeValue c
                        \<and> Get (fieldTag (fs ! i)) bizCodeKey = t \<and> t \<noteq> []
                  \<longrightarrow> fieldValue (fs' ! i) = BizCodeValue (c\<lparr>Key := p @ t\<rparr>))
             \<and> (\<forall>gs q. fieldValue (fs ! i) = StructValue gs
                        \<and> map_of (fieldTag (fs ! i)) bizCodePrefix = Some q
                  \<longrightarrow> InitModule (p @ q) (Pointer (Some (StructValue gs)))
                        = Inr (Pointer (Some (fieldValue (fs' ! i)))))
             \<and> (\<forall>gs. fieldValue (fs ! i) = StructValue gs
                        \<and> map_of (fieldTag (fs ! i)) bizCodePrefix = None
                  \<longrightarrow> InitModule p (Pointer (Some (StructValue gs)))
                        = Inr (Pointer (Some (fieldValue (fs' ! i))))))"
    by blast
next
  show "InitModule ''app'' (Pointer (Some (StructValue (TestErrorCodes [] [] [] [] [] [] [] []))))
       = Inr (Pointer (Some (StructValue
           (TestErrorCodes ''appcommon'' ''appauth'' ''appusernotFound'' ''appuserinvalid''
              ''appordernotFound'' ''apporderinvalid'' ''apporderpaymentfailed''
              ''apporderpaymentcanceled''))))"
    by (rule TestErrorCodes_app)
qed

text \<open>
  The struct of two fields \<open>Common BizCode `Key:"common"`\<close> and
  \<open>User struct { NotFound BizCode `Key:"notFound"` } `prefix:"user"`\<close>, with the
  prefix \<open>app\<close>.
\<close>

theorem InitModule_composes_prefixes_witness:
  "allExportedFields
     [codeField ''Common'' ''common'' [],
      Field ''User'' True [(bizCodePrefix, ''user'')]
        (StructValue [codeField ''NotFound'' ''notFound'' []])]
   \<and> (\<exists>fs'. InitModule ''app'' (Pointer (Some (StructValue
          [codeField ''Common'' ''common'' [],
           Field ''User'' True [(bizCodePrefix, ''user'')]
             (StructValue [codeField ''NotFound'' ''notFound'' []])])))
          = Inr (Pointer (Some (StructValue fs')))
        \<and> fieldValue (fs' ! 0) = BizCodeValue \<lparr>ctx = None, Key = ''appcommon''\<rparr>
        \<and> fieldValue (fs' ! 1) = StructValue [codeField ''NotFound'' ''notFound'' ''appusernotFound''])"
proof -
  let ?fs = "[codeField ''Common'' ''common'' [],
      Field ''User'' True [(bizCodePrefix, ''user'')]
        (StructValue [codeField ''NotFound'' ''notFound'' []])] :: string option field list"
  have settable: "allExportedFields ?fs" by (simp add: codeField_def)
  have inner: "InitModule (''app'' @ ''user'')
      (Pointer (Some (StructValue [codeField ''NotFound'' ''notFound'' []])))
      = Inr (Pointer (Some (StructValue [codeField ''NotFound'' ''notFound'' ''appusernotFound''])))"
    by (simp add: codeField_def CanSet_def CanAddr_def AddrInterface_def Get_def)
  from InitModule_composes_prefixes [of ?fs "''app''"] settable
  obtain fs' where r:
    "InitModule ''app'' (Pointer (Some (StructValue ?fs))) = Inr (Pointer (Some (StructValue fs')))"
    "\<forall>c t. fieldValue (?fs ! 0) = BizCodeValue c \<and> Get (fieldTag (?fs ! 0)) bizCodeKey = t
        \<and> t \<noteq> [] \<longrightarrow> fieldValue (fs' ! 0) = BizCodeValue (c\<lparr>Key := ''app'' @ t\<rparr>)"
    "\<forall>gs q. fieldValue (?fs ! 1) = StructValue gs
        \<and> map_of (fieldTag (?fs ! 1)) bizCodePrefix = Some q
      \<longrightarrow> InitModule (''app'' @ q) (Pointer (Some (StructValue gs)))
            = Inr (Pointer (Some (fieldValue (fs' ! 1))))"
    by force
  from r(2) have c: "fieldValue (fs' ! 0) = BizCodeValue \<lparr>ctx = None, Key = ''appcommon''\<rparr>"
    by (simp add: codeField_def Get_def)
  from r(3) have "InitModule (''app'' @ ''user'')
      (Pointer (Some (StructValue [codeField ''NotFound'' ''notFound'' []])))
      = Inr (Pointer (Some (fieldValue (fs' ! 1))))"
    by simp
  with inner have "fieldValue (fs' ! 1)
      = StructValue [codeField ''NotFound'' ''notFound'' ''appusernotFound'']"
    by simp
  with settable r(1) c show ?thesis by blast
qed

text \<open>
  C4, as the specification states it, does not hold, in three ways. A \<open>BizCode\<close> field that is not
  exported is not given the key \<open>p + t\<close>. An exported \<open>BizCode\<close> field whose tag
  \<open>Key\<close> is empty keeps its key, which is not \<open>p\<close>. And the tag that names the
  key is \<open>Key\<close>: an exported \<open>BizCode\<close> field tagged \<open>key:"notFound"\<close> keeps
  its key.
\<close>

theorem InitModule_each_code_field_counterexample:
  "InitModule ''app'' (Pointer (Some (StructValue
      [Field ''code'' False [(bizCodeKey, ''x'')] (BizCodeValue (code []))])))
     \<noteq> Inr (Pointer (Some (StructValue
      [Field ''code'' False [(bizCodeKey, ''x'')] (BizCodeValue (code ''appx''))])))
   \<and> InitModule ''app'' (Pointer (Some (StructValue
      [Field ''Code'' True [(bizCodeKey, [])] (BizCodeValue (code ''old''))])))
     = Inr (Pointer (Some (StructValue
      [Field ''Code'' True [(bizCodeKey, [])] (BizCodeValue (code ''old''))])))
   \<and> InitModule ''app'' (Pointer (Some (StructValue
      [Field ''NotFound'' True [(''key'', ''notFound'')] (BizCodeValue (code []))])))
     = Inr (Pointer (Some (StructValue
      [Field ''NotFound'' True [(''key'', ''notFound'')] (BizCodeValue (code []))])))"
  by (simp add: CanSet_def CanAddr_def AddrInterface_def Get_def bizCodeKey_def code_def)

text \<open>
  C5. On nil, on a value that is not a pointer, on a nil pointer and on a pointer
  to a value that is not a struct, \<open>InitModule\<close> returns without a panic and
  leaves its argument as it was.
\<close>

theorem InitModule_malformed_target:
  "InitModule p NilInterface = Inr NilInterface
   \<and> InitModule p (NonPointer v) = Inr (NonPointer v)
   \<and> InitModule p (Pointer None) = Inr (Pointer None)
   \<and> InitModule p (Pointer (Some (OtherValue s))) = Inr (Pointer (Some (OtherValue s)))"
  by simp

text \<open>
  C10. A \<open>BizCode\<close> field that cannot be set should be left as it is, without a
  panic. On the struct of the single field \<open>code BizCode `Key:"x"`\<close>, not
  exported, \<open>InitModule\<close> skips the assignment and then panics: \<open>BizCode\<close> is a
  struct, so the field is handed to the recursive call through
  \<open>Addr().Interface()\<close>, which refuses a field that is not exported.
\<close>

theorem InitModule_unexported_code_panics:
  "InitModule ''app'' (Pointer (Some (StructValue
      [Field ''code'' False [(bizCodeKey, ''x'')] (BizCodeValue (code []))])))
   = Inl (Panic
      ''reflect.Value.Interface: cannot return value obtained from unexported field or method'')"
  by (simp add: CanSet_def CanAddr_def AddrInterface_def Get_def)

end
